theory Spec2Isabelle
  imports Complex_Main
begin

section \<open>Tensors\<close>

text \<open>
  The notebooks compute on two-dimensional float tensors of shape (batch, features) and on
  one-dimensional ones (biases, labels). A two-dimensional tensor is modelled with its
  trailing dimension and its rows; a one-dimensional tensor is a list. Entries are real
  numbers, the finite values of the framework's 32-bit floats, and an operation returns the
  exact result: rounding is outside the model. What a 32-bit float does at the ends of its
  range is not rounding: the exponentials of the hand-written softmax become infinite or
  zero on ordinary scores, and its quotient is then not a number. The section on the range
  of float32 models this for the hand-written softmax.
\<close>

record tensor =
  width :: nat
  rws :: "real list list"

datatype error = SizeMismatch | BatchMismatch | TargetOutOfBounds | ZeroDivision

definition zeros :: "nat \<Rightarrow> nat \<Rightarrow> tensor" where
  "zeros n k = \<lparr>width = k, rws = replicate n (replicate k 0)\<rparr>"

text \<open>Pointwise application of a function, as \<^verbatim>\<open>torch.exp(x)\<close> or \<^verbatim>\<open>-x\<close> or \<^verbatim>\<open>1 + x\<close> do.\<close>

definition tmap :: "(real \<Rightarrow> real) \<Rightarrow> tensor \<Rightarrow> tensor" where
  "tmap f x = x\<lparr>rws := map (map f) (rws x)\<rparr>"

definition texp :: "tensor \<Rightarrow> tensor" where
  "texp x = tmap exp x"


text \<open>\<^verbatim>\<open>torch.sum(x, dim=1)\<close>: one sum per row, a one-dimensional tensor.\<close>

definition sum_dim1 :: "tensor \<Rightarrow> real list" where
  "sum_dim1 x = map sum_list (rws x)"

text \<open>\<^verbatim>\<open>v.view(-1, 1)\<close>: a one-dimensional tensor seen as a column.\<close>

definition view_col :: "real list \<Rightarrow> tensor" where
  "view_col v = \<lparr>width = 1, rws = map (\<lambda>s. [s]) v\<rparr>"

text \<open>
  \<^verbatim>\<open>a / b\<close> where \<open>b\<close> is a column with as many rows as \<open>a\<close>: broadcasting divides
  every entry of a row of \<open>a\<close> by the one value in the same row of \<open>b\<close>. Rows of equal
  length are divided entry by entry.
\<close>

fun div_row :: "real list \<Rightarrow> real list \<Rightarrow> real list" where
  "div_row r [d] = map (\<lambda>v. v / d) r"
| "div_row r ds = map2 (/) r ds"

definition tdiv :: "tensor \<Rightarrow> tensor \<Rightarrow> tensor" where
  "tdiv a b = a\<lparr>rws := map2 div_row (rws a) (rws b)\<rparr>"

text \<open>
  Modelled from the spec: the matrix product \<^verbatim>\<open>torch.mm(a, b)\<close> is the framework's; the spec
  gives the affine transform as \<open>y = xW + b\<close> for \<open>x\<close> of shape (batch, in) and \<open>W\<close> of
  shape (in, out), and makes a mismatch between the trailing dimension of \<open>x\<close> and the
  leading dimension of \<open>W\<close> a fatal error (the framework's RuntimeError, size mismatch).
\<close>

definition dot :: "real list \<Rightarrow> real list \<Rightarrow> real" where
  "dot r c = sum_list (map2 (*) r c)"

definition col :: "tensor \<Rightarrow> nat \<Rightarrow> real list" where
  "col b j = map (\<lambda>r. r ! j) (rws b)"

definition mm :: "tensor \<Rightarrow> tensor \<Rightarrow> error + tensor" where
  "mm a b =
     (if width a = length (rws b)
      then Inr \<lparr>width = width b, rws = map (\<lambda>r. map (\<lambda>j. dot r (col b j)) [0..<width b]) (rws a)\<rparr>
      else Inl SizeMismatch)"

text \<open>
  \<^verbatim>\<open>h + b\<close> for a tensor \<open>h\<close> of shape (n, k) and a one-dimensional \<open>b\<close>: broadcasting adds
  \<open>b\<close> to every row when its length is \<open>k\<close>, adds its one entry everywhere when its length
  is 1, stretches a one-column \<open>h\<close> to the length of \<open>b\<close>, and raises a RuntimeError
  otherwise.
\<close>

definition add_bias :: "tensor \<Rightarrow> real list \<Rightarrow> error + tensor" where
  "add_bias h b =
     (if length b = width h then Inr (h\<lparr>rws := map (\<lambda>r. map2 (+) r b) (rws h)\<rparr>)
      else if length b = 1 then Inr (tmap (\<lambda>v. v + hd b) h)
      else if width h = 1 then
        Inr \<lparr>width = length b, rws = map (\<lambda>r. map (\<lambda>v. hd r + v) b) (rws h)\<rparr>
      else Inl SizeMismatch)"

section \<open>The hand-written network of Part 2\<close>

text \<open>
  \<^verbatim>\<open>
  def activation(x):
      return 1/(1 + torch.exp(-x))
  \<close>
\<close>

definition activation :: "tensor \<Rightarrow> tensor" where
  "activation x = tmap (\<lambda>v. 1 / v) (tmap (\<lambda>v. 1 + v) (texp (tmap uminus x)))"

text \<open>
  \<^verbatim>\<open>
  h = activation(torch.mm(inputs, w1) + b1)
  out = torch.mm(h, w2) + b2
  \<close>
  An exception of a step ends the computation.
\<close>

definition affine :: "tensor \<Rightarrow> tensor \<Rightarrow> real list \<Rightarrow> error + tensor" where
  "affine x w b = (case mm x w of Inl e \<Rightarrow> Inl e | Inr y \<Rightarrow> add_bias y b)"

definition manual_forward ::
  "tensor \<Rightarrow> tensor \<Rightarrow> real list \<Rightarrow> tensor \<Rightarrow> real list \<Rightarrow> error + tensor" where
  "manual_forward inputs w1 b1 w2 b2 =
     (case affine inputs w1 b1 of
        Inl e \<Rightarrow> Inl e
      | Inr z \<Rightarrow> let h = activation z in affine h w2 b2)"

text \<open>
  \<^verbatim>\<open>
  def softmax(x):
      return (torch.exp(x)/torch.sum(torch.exp(x), dim = 1).view(-1, 1))
  \<close>
\<close>

text \<open>
  This is the function in exact arithmetic; \<open>softmax32\<close> below is the same function with
  the overflow and underflow of float32.
\<close>

definition softmax :: "tensor \<Rightarrow> tensor" where
  "softmax x = tdiv (texp x) (view_col (sum_dim1 (texp x)))"

text \<open>
  Modelled from the spec: the log-softmax nonlinearity \<^verbatim>\<open>nn.LogSoftmax(dim=1)\<close> is the
  framework's; the spec gives it row-wise as \<open>logsoftmax(z)_i = z_i - log(\<Sum>_k e^{z_k})\<close>.
\<close>

definition log_softmax :: "tensor \<Rightarrow> tensor" where
  "log_softmax x = x\<lparr>rws := map (\<lambda>r. map (\<lambda>v. v - ln (sum_list (map exp r))) r) (rws x)\<rparr>"

text \<open>
  Modelled from the spec: the rectified-linear nonlinearity \<^verbatim>\<open>nn.ReLU()\<close> is the
  framework's; the spec gives it as \<open>relu(z) = max(0, z)\<close>.
\<close>

definition relu :: "tensor \<Rightarrow> tensor" where
  "relu x = tmap (max 0) x"

text \<open>The tensor of shape (n, k) with the same value everywhere.\<close>

definition const_tensor :: "nat \<Rightarrow> nat \<Rightarrow> real \<Rightarrow> tensor" where
  "const_tensor n k c = \<lparr>width = k, rws = replicate n (replicate k c)\<rparr>"

definition well_shaped :: "tensor \<Rightarrow> bool" where
  "well_shaped x = list_all (\<lambda>r. length r = width x) (rws x)"

section \<open>The range of float32\<close>


definition overflow32 :: real where
  "overflow32 = 2 ^ 128 - 2 ^ 103"

definition underflow32 :: real where
  "underflow32 = 1 / 2 ^ 150"









section \<open>Networks built from the framework's modules\<close>

text \<open>
  A parameter of a module is a tensor \<^verbatim>\<open>p.data\<close> with its gradient \<^verbatim>\<open>p.grad\<close>, which is
  \<^verbatim>\<open>None\<close> until the first backward pass.
\<close>

record 'a parameter =
  data :: 'a
  grad :: "'a option"

text \<open>
  The modules the notebooks put into \<^verbatim>\<open>nn.Sequential\<close> and into the classes \<^verbatim>\<open>Network\<close>.
  An affine layer \<^verbatim>\<open>nn.Linear(in, out)\<close> owns a weight and a bias; the weight is kept as the
  spec has it, of shape (in, out), and the layer computes \<open>xW + b\<close> as the hand-written
  network does. \<^verbatim>\<open>nn.Sigmoid()\<close> is the function \<open>activation\<close>, \<^verbatim>\<open>nn.Softmax(dim=1)\<close> is
  the function \<open>softmax\<close> of exact arithmetic.
\<close>

datatype module =
  Linear "tensor parameter" "real list parameter"
| ReLU
| Sigmoid
| Softmax
| LogSoftmax

fun forward_module :: "module \<Rightarrow> tensor \<Rightarrow> error + tensor" where
  "forward_module (Linear W b) x = affine x (data W) (data b)"
| "forward_module ReLU x = Inr (relu x)"
| "forward_module Sigmoid x = Inr (activation x)"
| "forward_module Softmax x = Inr (softmax x)"
| "forward_module LogSoftmax x = Inr (log_softmax x)"

text \<open>\<^verbatim>\<open>model.forward(x)\<close> of an \<^verbatim>\<open>nn.Sequential\<close>: the modules in their order.\<close>

fun forward_seq :: "module list \<Rightarrow> tensor \<Rightarrow> error + tensor" where
  "forward_seq [] x = Inr x"
| "forward_seq (m # ms) x =
     (case forward_module m x of Inl e \<Rightarrow> Inl e | Inr y \<Rightarrow> forward_seq ms y)"

text \<open>A freshly created parameter: its values, no gradient yet.\<close>

definition fresh :: "'a \<Rightarrow> 'a parameter" where
  "fresh v = \<lparr>data = v, grad = None\<rparr>"

text \<open>
  The class \<^verbatim>\<open>Network\<close> of Part 2:
  \<^verbatim>\<open>
  x = self.hidden(x)
  x = self.sigmoid(x)
  x = self.output(x)
  x = self.softmax(x)
  \<close>
  with the parameters of \<^verbatim>\<open>hidden\<close> and \<^verbatim>\<open>output\<close> as arguments.
\<close>

definition network_forward ::
  "tensor \<Rightarrow> real list \<Rightarrow> tensor \<Rightarrow> real list \<Rightarrow> tensor \<Rightarrow> error + tensor" where
  "network_forward w_hidden b_hidden w_output b_output x =
     (case affine x w_hidden b_hidden of
        Inl e \<Rightarrow> Inl e
      | Inr x1 \<Rightarrow>
          let x2 = activation x1 in
          (case affine x2 w_output b_output of
             Inl e \<Rightarrow> Inl e
           | Inr x3 \<Rightarrow> Inr (softmax x3)))"

text \<open>
  The two networks that Part 3 hands to a loss, with the parameters of the three affine
  layers as arguments:
  \<^verbatim>\<open>
  model = nn.Sequential(nn.Linear(784, 128), nn.ReLU(),
                        nn.Linear(128, 64), nn.ReLU(),
                        nn.Linear(64, 10))
  criterion = nn.CrossEntropyLoss()
  \<close>
  and
  \<^verbatim>\<open>
  model = nn.Sequential(nn.Linear(784, 128), nn.ReLU(),
                        nn.Linear(128, 64), nn.ReLU(),
                        nn.Linear(64, 10), nn.LogSoftmax(dim=1))
  criterion = nn.NLLLoss()
  \<close>
\<close>

definition model_logits ::
  "tensor \<Rightarrow> real list \<Rightarrow> tensor \<Rightarrow> real list \<Rightarrow> tensor \<Rightarrow> real list \<Rightarrow> module list" where
  "model_logits w1 b1 w2 b2 w3 b3 =
     [Linear (fresh w1) (fresh b1), ReLU, Linear (fresh w2) (fresh b2), ReLU,
      Linear (fresh w3) (fresh b3)]"

definition model_logsoftmax ::
  "tensor \<Rightarrow> real list \<Rightarrow> tensor \<Rightarrow> real list \<Rightarrow> tensor \<Rightarrow> real list \<Rightarrow> module list" where
  "model_logsoftmax w1 b1 w2 b2 w3 b3 =
     [Linear (fresh w1) (fresh b1), ReLU, Linear (fresh w2) (fresh b2), ReLU,
      Linear (fresh w3) (fresh b3), LogSoftmax]"

section \<open>Loss\<close>

datatype criterion = NLLLoss | CrossEntropyLoss

text \<open>
  Modelled from the spec: the negative log-likelihood loss \<^verbatim>\<open>nn.NLLLoss()\<close> is the
  framework's; the spec gives it as \<open>loss = -(1/n) \<Sum>_i p_i\<close> for the log-probabilities
  \<open>p_i\<close> of the true class of sample \<open>i\<close>. The framework refuses a label vector whose
  length is not the batch size, and a label that is not a class index.
\<close>

definition nll_loss :: "tensor \<Rightarrow> nat list \<Rightarrow> error + real" where
  "nll_loss logps labels =
     (if length labels \<noteq> length (rws logps) then Inl BatchMismatch
      else if \<not> list_all (\<lambda>y. y < width logps) labels then Inl TargetOutOfBounds
      else Inr (- (1 / real (length labels)) * sum_list (map2 (\<lambda>r y. r ! y) (rws logps) labels)))"

text \<open>
  Modelled from the spec: \<^verbatim>\<open>nn.CrossEntropyLoss()\<close> is the framework's; the spec gives it
  as the combined form, raw scores with an implicit log-softmax and the negative
  log-likelihood.
\<close>

fun loss_of :: "criterion \<Rightarrow> tensor \<Rightarrow> nat list \<Rightarrow> error + real" where
  "loss_of NLLLoss output labels = nll_loss output labels"
| "loss_of CrossEntropyLoss output labels = nll_loss (log_softmax output) labels"

section \<open>Training\<close>

text \<open>Operations on two tensors of the same shape work entry by entry.\<close>

definition tmap2 :: "(real \<Rightarrow> real \<Rightarrow> real) \<Rightarrow> tensor \<Rightarrow> tensor \<Rightarrow> tensor" where
  "tmap2 f a b = a\<lparr>rws := map2 (map2 f) (rws a) (rws b)\<rparr>"

definition same_shape :: "tensor \<Rightarrow> tensor \<Rightarrow> bool" where
  "same_shape a b = (width a = width b \<and> map length (rws a) = map length (rws b))"

text \<open>
  Modelled from the spec: \<^verbatim>\<open>optimizer.zero_grad()\<close> is the framework's; the spec has every
  gradient tensor reset to zero before a backward pass. Every gradient tensor that exists
  is filled with zeros; a parameter that has no gradient yet stays without one.
\<close>

fun zero_grad_module :: "module \<Rightarrow> module" where
  "zero_grad_module (Linear W b) =
     Linear (W\<lparr>grad := map_option (tmap (\<lambda>_. 0)) (grad W)\<rparr>)
            (b\<lparr>grad := map_option (map (\<lambda>_. 0)) (grad b)\<rparr>)"
| "zero_grad_module m = m"

text \<open>
  Modelled from the spec: \<^verbatim>\<open>loss.backward()\<close> is the framework's; the spec has a gradient
  tensor accumulate the derivative of the loss with respect to its parameter. The
  framework computes the gradient of the loss with respect to
  every parameter and adds it to the parameter's gradient tensor ("when you do multiple
  backwards passes with the same parameters, the gradients are accumulated"); a
  parameter without a gradient receives the computed one. The differentiation itself is
  the framework's and is a parameter of the model: a function that gives, for the network,
  the criterion and the batch, one pair (gradient of the weight, gradient of the bias) for
  each affine layer, in the order of the layers.
\<close>

type_synonym gradient = "(tensor \<times> real list) list"

type_synonym autograd = "module list \<Rightarrow> criterion \<Rightarrow> tensor \<Rightarrow> nat list \<Rightarrow> gradient"

fun add_grad_tensor :: "tensor option \<Rightarrow> tensor \<Rightarrow> tensor option" where
  "add_grad_tensor None g = Some g"
| "add_grad_tensor (Some old) g = Some (tmap2 (+) old g)"

fun add_grad_vector :: "real list option \<Rightarrow> real list \<Rightarrow> real list option" where
  "add_grad_vector None g = Some g"
| "add_grad_vector (Some old) g = Some (map2 (+) old g)"

fun accumulate :: "gradient \<Rightarrow> module list \<Rightarrow> module list" where
  "accumulate gs [] = []"
| "accumulate (g # gs) (Linear W b # ms) =
     Linear (W\<lparr>grad := add_grad_tensor (grad W) (fst g)\<rparr>)
            (b\<lparr>grad := add_grad_vector (grad b) (snd g)\<rparr>) # accumulate gs ms"
| "accumulate gs (m # ms) = m # accumulate gs ms"

text \<open>
  Modelled from the spec: the update \<^verbatim>\<open>optimizer.step()\<close> of \<^verbatim>\<open>optim.SGD(model.parameters(), lr)\<close>
  is the framework's; the spec gives it as \<open>param \<leftarrow> param - \<alpha> * grad\<close> for each parameter
  tensor and its gradient tensor, with no momentum or other state. A parameter without a
  gradient is left as it is.
\<close>

definition update_tensor :: "real \<Rightarrow> tensor parameter \<Rightarrow> tensor parameter" where
  "update_tensor \<alpha> W =
     (case grad W of None \<Rightarrow> W
      | Some g \<Rightarrow> W\<lparr>data := tmap2 (\<lambda>p d. p - \<alpha> * d) (data W) g\<rparr>)"

definition update_vector :: "real \<Rightarrow> real list parameter \<Rightarrow> real list parameter" where
  "update_vector \<alpha> b =
     (case grad b of None \<Rightarrow> b
      | Some g \<Rightarrow> b\<lparr>data := map2 (\<lambda>p d. p - \<alpha> * d) (data b) g\<rparr>)"

fun step_module :: "real \<Rightarrow> module \<Rightarrow> module" where
  "step_module \<alpha> (Linear W b) = Linear (update_tensor \<alpha> W) (update_vector \<alpha> b)"
| "step_module \<alpha> m = m"

text \<open>
  The trainer: the network, the criterion, the learning rate given to \<^verbatim>\<open>optim.SGD\<close>, the
  variable \<^verbatim>\<open>running_loss\<close>, the lines printed, and the phases entered so far. The list of
  phases is not data of the program; it records the order of the calls.
\<close>

datatype phase = ZeroGrad | Forward | Loss | Backward | Update

record trainer =
  model :: "module list"
  criterion :: criterion
  lr :: real
  running_loss :: real
  printed :: "real list"
  trace :: "phase list"

definition zero_grad :: "trainer \<Rightarrow> trainer" where
  "zero_grad s = s\<lparr>model := map zero_grad_module (model s), trace := trace s @ [ZeroGrad]\<rparr>"

definition forward :: "trainer \<Rightarrow> tensor \<Rightarrow> (error + tensor) \<times> trainer" where
  "forward s images = (forward_seq (model s) images, s\<lparr>trace := trace s @ [Forward]\<rparr>)"

definition compute_loss :: "trainer \<Rightarrow> tensor \<Rightarrow> nat list \<Rightarrow> (error + real) \<times> trainer" where
  "compute_loss s output labels =
     (loss_of (criterion s) output labels, s\<lparr>trace := trace s @ [Loss]\<rparr>)"

definition backward :: "autograd \<Rightarrow> trainer \<Rightarrow> tensor \<Rightarrow> nat list \<Rightarrow> trainer" where
  "backward dl s images labels =
     s\<lparr>model := accumulate (dl (model s) (criterion s) images labels) (model s),
       trace := trace s @ [Backward]\<rparr>"

definition step :: "trainer \<Rightarrow> trainer" where
  "step s = s\<lparr>model := map (step_module (lr s)) (model s), trace := trace s @ [Update]\<rparr>"

text \<open>
  One training step, in two parts as in the two cells of Part 3 that show it:
  \<^verbatim>\<open>
  optimizer.zero_grad()
  output = model.forward(images)
  loss = criterion(output, labels)
  loss.backward()
  \<close>
  and then
  \<^verbatim>\<open>
  optimizer.step()
  running_loss += loss.item()
  \<close>
  An exception ends the step; the state it leaves is returned with the error.
\<close>

definition gradient_pass ::
  "autograd \<Rightarrow> trainer \<Rightarrow> tensor \<times> nat list \<Rightarrow> (error \<times> trainer) + (real \<times> trainer)" where
  "gradient_pass dl s batch =
     (let images = fst batch; labels = snd batch;
          s1 = zero_grad s;
          r2 = forward s1 images; s2 = snd r2
      in case fst r2 of
           Inl e \<Rightarrow> Inl (e, s2)
         | Inr output \<Rightarrow>
             let r3 = compute_loss s2 output labels; s3 = snd r3
             in case fst r3 of
                  Inl e \<Rightarrow> Inl (e, s3)
                | Inr loss \<Rightarrow> Inr (loss, backward dl s3 images labels))"

definition train_step ::
  "autograd \<Rightarrow> trainer \<Rightarrow> tensor \<times> nat list \<Rightarrow> (error \<times> trainer) + trainer" where
  "train_step dl s batch =
     (case gradient_pass dl s batch of
        Inl e \<Rightarrow> Inl e
      | Inr (loss, s4) \<Rightarrow>
          let s5 = step s4 in Inr (s5\<lparr>running_loss := running_loss s5 + loss\<rparr>))"

text \<open>
  The training loop of Part 3:
  \<^verbatim>\<open>
  for e in range(epochs):
      running_loss = 0
      for images, labels in trainloader:
          images = images.view(images.shape[0], -1)
          (the training step)
      else:
          print(f"Training loss: {running_loss/len(trainloader)}")
  \<close>
  The batches are given flattened. The loader shuffles, so every epoch has its own
  sequence of batches; the number of epochs is the number of sequences.
\<close>

fun train_batches ::
  "autograd \<Rightarrow> trainer \<Rightarrow> (tensor \<times> nat list) list \<Rightarrow> (error \<times> trainer) + trainer" where
  "train_batches dl s [] = Inr s"
| "train_batches dl s (batch # rest) =
     (case train_step dl s batch of
        Inl e \<Rightarrow> Inl e
      | Inr s' \<Rightarrow> train_batches dl s' rest)"

definition train_epoch ::
  "autograd \<Rightarrow> trainer \<Rightarrow> (tensor \<times> nat list) list \<Rightarrow> (error \<times> trainer) + trainer" where
  "train_epoch dl s trainloader =
     (case train_batches dl (s\<lparr>running_loss := 0\<rparr>) trainloader of
        Inl e \<Rightarrow> Inl e
      | Inr s' \<Rightarrow>
          if length trainloader = 0 then Inl (ZeroDivision, s')
          else Inr (s'\<lparr>printed := printed s' @ [running_loss s' / real (length trainloader)]\<rparr>))"

fun train ::
  "autograd \<Rightarrow> trainer \<Rightarrow> (tensor \<times> nat list) list list \<Rightarrow> (error \<times> trainer) + trainer" where
  "train dl s [] = Inr s"
| "train dl s (trainloader # later) =
     (case train_epoch dl s trainloader of
        Inl e \<Rightarrow> Inl e
      | Inr s' \<Rightarrow> train dl s' later)"

text \<open>The five phases of a training step, in the order of the loop body.\<close>

definition training_phases :: "phase list" where
  "training_phases = [ZeroGrad, Forward, Loss, Backward, Update]"

text \<open>The parameter values and the gradients of a network, one pair for each affine layer.\<close>

fun params_of :: "module list \<Rightarrow> (tensor \<times> real list) list" where
  "params_of [] = []"
| "params_of (Linear W b # ms) = (data W, data b) # params_of ms"
| "params_of (m # ms) = params_of ms"

fun grads_of :: "module list \<Rightarrow> (tensor option \<times> real list option) list" where
  "grads_of [] = []"
| "grads_of (Linear W b # ms) = (grad W, grad b) # grads_of ms"
| "grads_of (m # ms) = grads_of ms"

text \<open>
  The data model's condition on gradients: a gradient tensor has the shape of its
  parameter tensor, in the network and in what the differentiation returns.
\<close>

fun fits_tensor :: "tensor \<Rightarrow> tensor option \<Rightarrow> bool" where
  "fits_tensor p None = True"
| "fits_tensor p (Some g) = same_shape p g"

fun fits_vector :: "real list \<Rightarrow> real list option \<Rightarrow> bool" where
  "fits_vector p None = True"
| "fits_vector p (Some g) = (length p = length g)"

fun grads_fit :: "module list \<Rightarrow> bool" where
  "grads_fit [] = True"
| "grads_fit (Linear W b # ms) =
     (fits_tensor (data W) (grad W) \<and> fits_vector (data b) (grad b) \<and> grads_fit ms)"
| "grads_fit (m # ms) = grads_fit ms"

fun gradient_fits :: "gradient \<Rightarrow> module list \<Rightarrow> bool" where
  "gradient_fits gs [] = (gs = [])"
| "gradient_fits (g # gs) (Linear W b # ms) =
     (same_shape (data W) (fst g) \<and> length (data b) = length (snd g) \<and> gradient_fits gs ms)"
| "gradient_fits [] (Linear W b # ms) = False"
| "gradient_fits gs (m # ms) = gradient_fits gs ms"

text \<open>The network with its gradients forgotten: the modules and the parameter values.\<close>

fun forget_grad :: "module \<Rightarrow> module" where
  "forget_grad (Linear W b) = Linear (W\<lparr>grad := None\<rparr>) (b\<lparr>grad := None\<rparr>)"
| "forget_grad m = m"

text \<open>
  The dimensions of a network match an input of trailing dimension \<open>k\<close> when every affine
  layer receives a tensor whose trailing dimension is the leading dimension of its weight,
  and its bias can be added to the product.
\<close>

fun module_width :: "module \<Rightarrow> nat \<Rightarrow> nat option" where
  "module_width (Linear W b) k =
     (if k \<noteq> length (rws (data W)) then None
      else if length (data b) = width (data W) then Some (width (data W))
      else if length (data b) = 1 then Some (width (data W))
      else if width (data W) = 1 then Some (length (data b))
      else None)"
| "module_width m k = Some k"

fun dims_match :: "module list \<Rightarrow> nat \<Rightarrow> bool" where
  "dims_match [] k = True"
| "dims_match (m # ms) k =
     (case module_width m k of None \<Rightarrow> False | Some k' \<Rightarrow> dims_match ms k')"

text \<open>A tensor of log-probabilities: the exponentials of every row sum to 1.\<close>

definition log_probabilities :: "tensor \<Rightarrow> bool" where
  "log_probabilities t = list_all (\<lambda>p. sum_list (map exp p) = 1) (rws t)"

section \<open>Concrete inputs\<close>

text \<open>Small tensors and networks on which the theorems below are instantiated.\<close>

definition sample :: tensor where
  "sample = \<lparr>width = 2, rws = [[1, 2]]\<rparr>"


text \<open>
  A network of one affine layer with two inputs and two classes followed by log-softmax,
  with gradients stored from an earlier backward pass, and a trainer for it.
\<close>

definition weight0 :: "tensor parameter" where
  "weight0 = \<lparr>data = \<lparr>width = 2, rws = [[1, 0], [0, 1]]\<rparr>,
              grad = Some \<lparr>width = 2, rws = [[2, 4], [6, 8]]\<rparr>\<rparr>"

definition bias0 :: "real list parameter" where
  "bias0 = \<lparr>data = [0, 0], grad = Some [1, 1]\<rparr>"

definition net0 :: "module list" where
  "net0 = [Linear weight0 bias0, LogSoftmax]"

definition trainer0 :: trainer where
  "trainer0 = \<lparr>model = net0, criterion = NLLLoss, lr = 1 / 2, running_loss = 0,
               printed = [], trace = []\<rparr>"

text \<open>
  A stand-in for the framework's differentiation, used only to run the training loop on
  concrete inputs: it returns the parameters themselves as their gradients.
\<close>

definition autograd0 :: autograd where
  "autograd0 m c x y = params_of m"

definition batch0 :: "tensor \<times> nat list" where
  "batch0 = (\<lparr>width = 2, rws = [[1, 2]]\<rparr>, [0])"

text \<open>A batch whose rows have three entries, one more than the network takes.\<close>

definition batch_wide :: "tensor \<times> nat list" where
  "batch_wide = (\<lparr>width = 3, rws = [[1, 2, 3]]\<rparr>, [0])"

section \<open>Properties of the hand-written softmax\<close>

lemma sum_list_exp_pos: "r \<noteq> [] \<Longrightarrow> 0 < sum_list (map exp (r :: real list))"
proof (induction r)
  case Nil
  then show ?case by simp
next
  case (Cons a r)
  show ?case
  proof (cases "r = []")
    case True
    then show ?thesis by simp
  next
    case False
    with Cons.IH have "0 < sum_list (map exp r)" by simp
    moreover have "0 < exp a" by simp
    ultimately show ?thesis by (simp add: add_pos_pos)
  qed
qed

lemma softmax_rws:
  "rws (softmax x) = map (\<lambda>r. map (\<lambda>v. exp v / sum_list (map exp r)) r) (rws x)"
  by (simp add: softmax_def tdiv_def texp_def tmap_def view_col_def sum_dim1_def
      map2_map_map zip_same_conv_map comp_def)

lemma softmax_width: "width (softmax x) = width x"
  by (simp add: softmax_def tdiv_def texp_def tmap_def)




lemma sum_list_divide: "sum_list (map (\<lambda>v. f v / c) r) = sum_list (map f r) / (c :: real)"
  by (induction r) (simp_all add: add_divide_distrib)

lemma softmax_row_sum:
  "r \<noteq> [] \<Longrightarrow> sum_list (map (\<lambda>v. exp v / sum_list (map exp r)) r) = (1 :: real)"
  using sum_list_exp_pos [of r] by (simp add: sum_list_divide)

lemma log_softmax_row_sum:
  assumes "r \<noteq> []"
  shows "sum_list (map exp (map (\<lambda>v. v - ln (sum_list (map exp r))) r)) = (1 :: real)"
proof -
  have pos: "0 < sum_list (map exp r)" using assms by (rule sum_list_exp_pos)
  have "map exp (map (\<lambda>v. v - ln (sum_list (map exp r))) r)
        = map (\<lambda>v. exp v / sum_list (map exp r)) r"
    using pos by (simp add: exp_diff)
  then have "sum_list (map exp (map (\<lambda>v. v - ln (sum_list (map exp r))) r))
        = sum_list (map (\<lambda>v. exp v / sum_list (map exp r)) r)"
    by (rule arg_cong)
  also have "\<dots> = 1" using assms by (rule softmax_row_sum)
  finally show ?thesis .
qed

lemma log_softmax_rws:
  "rws (log_softmax x) = map (\<lambda>r. map (\<lambda>v. v - ln (sum_list (map exp r))) r) (rws x)"
  by (simp add: log_softmax_def)

lemma rows_nonempty:
  "well_shaped x \<Longrightarrow> 0 < width x \<Longrightarrow> list_all (\<lambda>r. r \<noteq> []) (rws x)"
  by (auto simp: well_shaped_def list_all_iff)

section \<open>The hand-written softmax on float32\<close>


lemma under_lt_over: "underflow32 < overflow32"
proof -
  have "underflow32 \<le> 1" by (simp add: underflow32_def)
  moreover have "1 < overflow32" by (simp add: overflow32_def)
  ultimately show ?thesis by simp
qed































section \<open>Networks with zero parameters\<close>

lemma dot_zero: "dot r (replicate k 0) = 0"
  by (simp add: dot_def zip_replicate2 comp_def)

lemma col_zeros: "j < n \<Longrightarrow> col (zeros k n) j = replicate k 0"
  by (simp add: col_def zeros_def)

lemma mm_zeros:
  assumes "width x = k"
  shows "mm x (zeros k n) = Inr (zeros (length (rws x)) n)"
proof -
  have row: "map (\<lambda>j. dot r (col (zeros k n) j)) [0..<n] = replicate n 0" for r
  proof -
    have "map (\<lambda>j. dot r (col (zeros k n) j)) [0..<n] = map (\<lambda>j. 0) [0..<n]"
      by (rule map_cong) (simp_all add: col_zeros dot_zero)
    then show ?thesis by (simp add: map_replicate_const)
  qed
  have "width (zeros k n) = n" "length (rws (zeros k n)) = k"
    by (simp_all add: zeros_def)
  then show ?thesis
    using assms by (simp add: mm_def row map_replicate_const) (simp add: zeros_def)
qed

lemma add_bias_zeros: "add_bias (zeros n k) (replicate k 0) = Inr (zeros n k)"
  by (simp add: add_bias_def zeros_def)

lemma affine_zeros:
  "width x = k \<Longrightarrow> affine x (zeros k n) (replicate n 0) = Inr (zeros (length (rws x)) n)"
  by (simp add: affine_def mm_zeros add_bias_zeros)

lemma activation_zeros: "activation (zeros n k) = const_tensor n k (1 / 2)"
  by (simp add: activation_def texp_def tmap_def zeros_def const_tensor_def)

lemma relu_zeros: "relu (zeros n k) = zeros n k"
  by (simp add: relu_def tmap_def zeros_def)

lemma log_softmax_zeros: "log_softmax (zeros n k) = const_tensor n k (- ln (real k))"
  by (simp add: log_softmax_def zeros_def const_tensor_def sum_list_replicate)

lemma width_const_tensor: "width (const_tensor n k c) = k"
  and rws_const_tensor: "rws (const_tensor n k c) = replicate n (replicate k c)"
  by (simp_all add: const_tensor_def)

lemma manual_forward_zeros:
  "width x = 4 \<Longrightarrow>
   manual_forward x (zeros 4 3) (replicate 3 0) (zeros 3 2) (replicate 2 0) = Inr (zeros (length (rws x)) 2)"
  by (simp add: manual_forward_def affine_zeros activation_zeros width_const_tensor rws_const_tensor)

text \<open>
  C7. The network with input dimension 4, a hidden layer of 3 units with sigmoid
  activation and an output layer of 2 units with log-softmax, all weights and biases zero,
  maps every single-sample batch \<open>[[a, b, c, d]]\<close> to the log-probabilities
  \<open>ln (1/2)\<close> for both classes: as an \<^verbatim>\<open>nn.Sequential\<close>, and as the hand-written forward
  pass followed by log-softmax or by the logarithm of the hand-written softmax.
\<close>

theorem zero_network_log_half:
  "forward_seq
     [Linear (fresh (zeros 4 3)) (fresh (replicate 3 0)), Sigmoid,
      Linear (fresh (zeros 3 2)) (fresh (replicate 2 0)), LogSoftmax]
     \<lparr>width = 4, rws = [[a, b, c, d]]\<rparr>
   = Inr \<lparr>width = 2, rws = [[ln (1 / 2), ln (1 / 2)]]\<rparr> \<and>
   (case manual_forward \<lparr>width = 4, rws = [[a, b, c, d]]\<rparr>
           (zeros 4 3) (replicate 3 0) (zeros 3 2) (replicate 2 0) of
      Inl e \<Rightarrow> Inl e
    | Inr out \<Rightarrow> Inr (log_softmax out, tmap ln (softmax out)))
   = Inr (\<lparr>width = 2, rws = [[ln (1 / 2), ln (1 / 2)]]\<rparr>,
          \<lparr>width = 2, rws = [[ln (1 / 2), ln (1 / 2)]]\<rparr>)"
proof -
  have "ln (1 / 2 :: real) = ln 1 - ln 2"
    by (rule ln_divide_pos) simp_all
  then have half: "- ln (2 :: real) = ln (1 / 2)"
    by simp
  have c: "const_tensor (Suc 0) 2 (- ln 2) = \<lparr>width = 2, rws = [[ln (1 / 2), ln (1 / 2)]]\<rparr>"
    by (simp add: const_tensor_def half) (simp add: numeral_2_eq_2)
  have s: "tmap ln (softmax (zeros (Suc 0) 2)) = \<lparr>width = 2, rws = [[ln (1 / 2), ln (1 / 2)]]\<rparr>"
    by (simp add: softmax_def tdiv_def texp_def tmap_def view_col_def sum_dim1_def zeros_def numeral_2_eq_2)
  show ?thesis
    by (simp add: fresh_def affine_zeros activation_zeros width_const_tensor rws_const_tensor
        log_softmax_zeros manual_forward_zeros c s)
qed

section \<open>The update step\<close>

lemma row_update_diff:
  "length p = length g \<Longrightarrow>
   map2 (-) (map2 (\<lambda>p d. p - \<alpha> * d) p g) p = map ((*) (- \<alpha>)) (g :: real list)"
  by (induction p g rule: list_induct2) simp_all

lemma rows_update_diff:
  "map length P = map length G \<Longrightarrow>
   map2 (map2 (-)) (map2 (map2 (\<lambda>p d. p - \<alpha> * d)) P G) P = map (map ((*) (- \<alpha>))) (G :: real list list)"
proof (induction P arbitrary: G)
  case Nil
  then show ?case by simp
next
  case (Cons p P)
  then obtain g G' where G: "G = g # G'" by (cases G) auto
  with Cons.prems have "length p = length g" "map length P = map length G'" by simp_all
  with Cons.IH [of G'] G show ?case by (simp add: row_update_diff)
qed

lemma update_tensor_diff:
  assumes "grad W = Some g" and "same_shape (data W) g"
  shows "tmap2 (-) (data (update_tensor \<alpha> W)) (data W) = tmap ((*) (- \<alpha>)) g"
    and "grad (update_tensor \<alpha> W) = grad W"
  using assms
  by (simp_all add: update_tensor_def tmap2_def tmap_def same_shape_def rows_update_diff)

lemma update_vector_diff:
  assumes "grad b = Some g" and "length (data b) = length g"
  shows "map2 (-) (data (update_vector \<alpha> b)) (data b) = map ((*) (- \<alpha>)) g"
    and "grad (update_vector \<alpha> b) = grad b"
  using assms
  by (simp_all add: update_vector_def row_update_diff)

lemma grads_of_step: "grads_of (map (step_module \<alpha>) ms) = grads_of ms"
proof (induction ms)
  case Nil
  then show ?case by simp
next
  case (Cons m ms)
  then show ?case
    by (cases m) (simp_all add: update_tensor_def update_vector_def split: option.splits)
qed

text \<open>
  C1. One update step of plain stochastic gradient descent changes every parameter tensor
  (the weight and the bias of every affine layer that has a gradient of the parameter's
  shape) entry by entry by exactly \<open>- \<alpha> * grad\<close>, where \<open>\<alpha>\<close> is the learning rate. The update
  keeps no state: it leaves the learning rate and the gradients as they are, and its
  result does not depend on anything the trainer holds beside the network and the learning
  rate.
\<close>

theorem sgd_step_exact:
  assumes "i < length (model s)" and "model s ! i = Linear W b"
    and "grad W = Some gW" and "same_shape (data W) gW"
    and "grad b = Some gb" and "length (data b) = length gb"
  shows "(\<exists>W' b'. model (step s) ! i = Linear W' b' \<and>
           tmap2 (-) (data W') (data W) = tmap ((*) (- lr s)) gW \<and>
           map2 (-) (data b') (data b) = map ((*) (- lr s)) gb \<and>
           grad W' = Some gW \<and> grad b' = Some gb) \<and>
         lr (step s) = lr s \<and>
         grads_of (model (step s)) = grads_of (model s) \<and>
         model (step (s\<lparr>running_loss := l, printed := ps, trace := t\<rparr>)) = model (step s)"
proof -
  have "model (step s) ! i = Linear (update_tensor (lr s) W) (update_vector (lr s) b)"
    using assms(1,2) by (simp add: step_def)
  then have a: "\<exists>W' b'. model (step s) ! i = Linear W' b' \<and>
           tmap2 (-) (data W') (data W) = tmap ((*) (- lr s)) gW \<and>
           map2 (-) (data b') (data b) = map ((*) (- lr s)) gb \<and>
           grad W' = Some gW \<and> grad b' = Some gb"
    using update_tensor_diff [OF assms(3,4)] update_vector_diff [OF assms(5,6)] assms(3,5)
    by simp
  have b: "lr (step s) = lr s \<and> grads_of (model (step s)) = grads_of (model s)"
    by (simp add: step_def grads_of_step)
  have c: "model (step (s\<lparr>running_loss := l, printed := ps, trace := t\<rparr>)) = model (step s)"
    by (simp add: step_def)
  from a b c show ?thesis by simp
qed

theorem sgd_step_exact_witness:
  "0 < length (model trainer0) \<and> model trainer0 ! 0 = Linear weight0 bias0 \<and>
   grad weight0 = Some \<lparr>width = 2, rws = [[2, 4], [6, 8]]\<rparr> \<and>
   same_shape (data weight0) \<lparr>width = 2, rws = [[2, 4], [6, 8]]\<rparr> \<and>
   grad bias0 = Some [1, 1] \<and> length (data bias0) = length [1, 1 :: real] \<and>
   (\<exists>W' b'. model (step trainer0) ! 0 = Linear W' b' \<and>
      tmap2 (-) (data W') (data weight0) = tmap ((*) (- lr trainer0)) \<lparr>width = 2, rws = [[2, 4], [6, 8]]\<rparr> \<and>
      map2 (-) (data b') (data bias0) = map ((*) (- lr trainer0)) [1, 1] \<and>
      grad W' = Some \<lparr>width = 2, rws = [[2, 4], [6, 8]]\<rparr> \<and> grad b' = Some [1, 1]) \<and>
   data (update_tensor (lr trainer0) weight0) = \<lparr>width = 2, rws = [[0, -2], [-3, -3]]\<rparr>"
proof -
  have h1: "0 < length (model trainer0)" by (simp add: trainer0_def net0_def)
  have h2: "model trainer0 ! 0 = Linear weight0 bias0" by (simp add: trainer0_def net0_def)
  have h3: "grad weight0 = Some \<lparr>width = 2, rws = [[2, 4], [6, 8]]\<rparr>" by (simp add: weight0_def)
  have h4: "same_shape (data weight0) \<lparr>width = 2, rws = [[2, 4], [6, 8]]\<rparr>"
    by (simp add: weight0_def same_shape_def)
  have h5: "grad bias0 = Some [1, 1]" by (simp add: bias0_def)
  have h6: "length (data bias0) = length [1, 1 :: real]" by (simp add: bias0_def)
  have v: "data (update_tensor (lr trainer0) weight0) = \<lparr>width = 2, rws = [[0, -2], [-3, -3]]\<rparr>"
    by (simp add: update_tensor_def weight0_def trainer0_def tmap2_def)
  show ?thesis
    using sgd_step_exact [OF h1 h2 h3 h4 h5 h6] h1 h2 h3 h4 h5 h6 v by simp
qed

section \<open>The order of the phases\<close>

lemma gradient_pass_trace:
  "gradient_pass dl s batch = Inr (l, s4) \<Longrightarrow>
   trace s4 = trace s @ [ZeroGrad, Forward, Loss, Backward]"
  by (auto simp: gradient_pass_def Let_def zero_grad_def forward_def compute_loss_def backward_def
      split: sum.splits)

lemma gradient_pass_abort_trace:
  "gradient_pass dl s batch = Inl (e, s') \<Longrightarrow>
   trace s' = trace s @ [ZeroGrad, Forward] \<or> trace s' = trace s @ [ZeroGrad, Forward, Loss]"
  by (auto simp: gradient_pass_def Let_def zero_grad_def forward_def compute_loss_def
      split: sum.splits)

lemma train_step_trace:
  "train_step dl s batch = Inr s' \<Longrightarrow> trace s' = trace s @ training_phases"
  by (auto simp: train_step_def Let_def step_def training_phases_def
      dest!: gradient_pass_trace split: sum.splits prod.splits)

lemma train_step_abort_trace:
  "train_step dl s batch = Inl (e, s') \<Longrightarrow>
   trace s' = trace s @ [ZeroGrad, Forward] \<or> trace s' = trace s @ [ZeroGrad, Forward, Loss]"
  by (auto simp: train_step_def Let_def dest: gradient_pass_abort_trace
      split: sum.splits prod.splits)

lemma train_batches_trace:
  "train_batches dl s bs = Inr s' \<Longrightarrow>
   trace s' = trace s @ concat (replicate (length bs) training_phases)"
proof (induction bs arbitrary: s)
  case Nil
  then show ?case by simp
next
  case (Cons b bs)
  then obtain s1 where 1: "train_step dl s b = Inr s1" and 2: "train_batches dl s1 bs = Inr s'"
    by (auto split: sum.splits)
  from train_step_trace [OF 1] Cons.IH [OF 2] show ?case
    by simp
qed

lemma train_batches_abort_trace:
  "train_batches dl s bs = Inl (e, s') \<Longrightarrow>
   \<exists>k p. trace s' = trace s @ concat (replicate k training_phases) @ p \<and>
         (p = [ZeroGrad, Forward] \<or> p = [ZeroGrad, Forward, Loss])"
proof (induction bs arbitrary: s)
  case Nil
  then show ?case by simp
next
  case (Cons b bs)
  show ?case
  proof (cases "train_step dl s b")
    case (Inl a)
    with Cons.prems have "train_step dl s b = Inl (e, s')" by simp
    from train_step_abort_trace [OF this]
    have "trace s' = trace s @ concat (replicate 0 training_phases) @ [ZeroGrad, Forward] \<or>
          trace s' = trace s @ concat (replicate 0 training_phases) @ [ZeroGrad, Forward, Loss]"
      by simp
    then show ?thesis by blast
  next
    case (Inr s1)
    with Cons.prems have "train_batches dl s1 bs = Inl (e, s')" by simp
    from Cons.IH [OF this] obtain k p where
      kp: "trace s' = trace s1 @ concat (replicate k training_phases) @ p"
      "p = [ZeroGrad, Forward] \<or> p = [ZeroGrad, Forward, Loss]" by blast
    from train_step_trace [OF Inr] kp(1)
    have "trace s' = trace s @ concat (replicate (Suc k) training_phases) @ p" by simp
    with kp(2) show ?thesis by blast
  qed
qed

lemma train_epoch_trace:
  "train_epoch dl s bs = Inr s' \<Longrightarrow>
   trace s' = trace s @ concat (replicate (length bs) training_phases)"
  by (auto simp: train_epoch_def split: sum.splits if_splits dest!: train_batches_trace)

lemma train_epoch_abort_trace:
  assumes "train_epoch dl s bs = Inl (e, s')"
  shows "\<exists>k p. trace s' = trace s @ concat (replicate k training_phases) @ p \<and>
         (p = [] \<and> e = ZeroDivision \<or> p = [ZeroGrad, Forward] \<or> p = [ZeroGrad, Forward, Loss])"
proof (cases "train_batches dl (s\<lparr>running_loss := 0\<rparr>) bs")
  case (Inl a)
  with assms have "train_batches dl (s\<lparr>running_loss := 0\<rparr>) bs = Inl (e, s')"
    by (simp add: train_epoch_def)
  from train_batches_abort_trace [OF this] show ?thesis by auto
next
  case (Inr s1)
  with assms have e: "e = ZeroDivision" "s' = s1" "bs = []"
    by (auto simp: train_epoch_def split: if_splits)
  from Inr e(3) have "s1 = s\<lparr>running_loss := 0\<rparr>" by simp
  with e(2) have "trace s' = trace s @ concat (replicate 0 training_phases) @ []" by simp
  with e(1) show ?thesis by blast
qed

lemma run_ok: "\<exists>s'. train autograd0 trainer0 [[batch0, batch0], [batch0]] = Inr s'"
  by (simp add: train_epoch_def train_step_def gradient_pass_def Let_def zero_grad_def forward_def
      compute_loss_def backward_def step_def trainer0_def net0_def weight0_def bias0_def batch0_def
      autograd0_def affine_def mm_def add_bias_def dot_def col_def log_softmax_def nll_loss_def
      tmap_def tmap2_def update_tensor_def update_vector_def)

lemma run_abort: "\<exists>s'. train autograd0 trainer0 [[batch0, batch_wide, batch0]] = Inl (SizeMismatch, s')"
  by (simp add: train_epoch_def train_step_def gradient_pass_def Let_def zero_grad_def forward_def
      compute_loss_def backward_def step_def trainer0_def net0_def weight0_def bias0_def batch0_def
      batch_wide_def
      autograd0_def affine_def mm_def add_bias_def dot_def col_def log_softmax_def nll_loss_def
      tmap_def tmap2_def update_tensor_def update_vector_def)

text \<open>
  C4. A training run that completes has executed, for every batch of every epoch, the five
  phases zero-gradients, forward, loss, backward, update, in this order and once each; so
  an update always follows the backward pass of its own step and precedes the forward
  pass of the next. A run that an exception ends has executed complete steps and then
  the beginning of one step, up to the forward pass or the loss (or nothing more, when the
  division by the number of batches fails): never a backward pass or an update out of
  order.
\<close>

theorem training_phases_in_order:
  "(train dl s loaders = Inr s' \<longrightarrow>
      trace s' = trace s @ concat (replicate (length (concat loaders)) training_phases)) \<and>
   (train dl s loaders = Inl (e, s') \<longrightarrow>
      (\<exists>k p. trace s' = trace s @ concat (replicate k training_phases) @ p \<and>
         (p = [] \<and> e = ZeroDivision \<or> p = [ZeroGrad, Forward] \<or> p = [ZeroGrad, Forward, Loss])))"
proof (induction loaders arbitrary: s)
  case Nil
  then show ?case by simp
next
  case (Cons bs loaders)
  show ?case
  proof (cases "train_epoch dl s bs")
    case (Inl a)
    then have "train dl s (bs # loaders) = Inl a" by simp
    with Inl train_epoch_abort_trace [of dl s bs e s'] show ?thesis by auto
  next
    case (Inr s1)
    then have t: "train dl s (bs # loaders) = train dl s1 loaders" by simp
    note 1 = train_epoch_trace [OF Inr]
    have a: "train dl s (bs # loaders) = Inr s' \<longrightarrow>
      trace s' = trace s @ concat (replicate (length (concat (bs # loaders))) training_phases)"
      using Cons.IH [of s1] 1 t by (simp add: replicate_add)
    have b: "train dl s (bs # loaders) = Inl (e, s') \<longrightarrow>
      (\<exists>k p. trace s' = trace s @ concat (replicate k training_phases) @ p \<and>
         (p = [] \<and> e = ZeroDivision \<or> p = [ZeroGrad, Forward] \<or> p = [ZeroGrad, Forward, Loss]))"
    proof
      assume "train dl s (bs # loaders) = Inl (e, s')"
      with t Cons.IH [of s1] obtain k p where
        kp: "trace s' = trace s1 @ concat (replicate k training_phases) @ p"
        "p = [] \<and> e = ZeroDivision \<or> p = [ZeroGrad, Forward] \<or> p = [ZeroGrad, Forward, Loss]"
        by auto
      from kp(1) 1 have "trace s' = trace s @ concat (replicate (length bs + k) training_phases) @ p"
        by (simp add: replicate_add)
      with kp(2) show "\<exists>k p. trace s' = trace s @ concat (replicate k training_phases) @ p \<and>
         (p = [] \<and> e = ZeroDivision \<or> p = [ZeroGrad, Forward] \<or> p = [ZeroGrad, Forward, Loss])"
        by blast
    qed
    from a b show ?thesis by simp
  qed
qed

theorem training_phases_in_order_witness:
  "(\<exists>s'. train autograd0 trainer0 [[batch0, batch0], [batch0]] = Inr s' \<and>
      trace s' = trace trainer0 @ concat (replicate 3 training_phases)) \<and>
   (\<exists>s'. train autograd0 trainer0 [[batch0, batch_wide, batch0]] = Inl (SizeMismatch, s') \<and>
      (\<exists>k p. trace s' = trace trainer0 @ concat (replicate k training_phases) @ p \<and>
         (p = [] \<and> SizeMismatch = ZeroDivision \<or> p = [ZeroGrad, Forward] \<or>
          p = [ZeroGrad, Forward, Loss])))"
proof -
  obtain s1 where 1: "train autograd0 trainer0 [[batch0, batch0], [batch0]] = Inr s1"
    using run_ok by blast
  obtain s2 where 2: "train autograd0 trainer0 [[batch0, batch_wide, batch0]] = Inl (SizeMismatch, s2)"
    using run_abort by blast
  have a: "trace s1 = trace trainer0 @ concat (replicate 3 training_phases)"
    using training_phases_in_order
      [where dl = autograd0 and s = trainer0 and loaders = "[[batch0, batch0], [batch0]]"
         and s' = s1] 1
    by (simp add: numeral_3_eq_3)
  have b: "\<exists>k p. trace s2 = trace trainer0 @ concat (replicate k training_phases) @ p \<and>
         (p = [] \<and> SizeMismatch = ZeroDivision \<or> p = [ZeroGrad, Forward] \<or>
          p = [ZeroGrad, Forward, Loss])"
    using 2 training_phases_in_order
      [where dl = autograd0 and s = trainer0 and loaders = "[[batch0, batch_wide, batch0]]"
         and s' = s2 and e = SizeMismatch]
    by blast
  from 1 2 a b show ?thesis by blast
qed

section \<open>Gradients are fresh at every update\<close>

lemma zero_plus_row:
  "length z = length g \<Longrightarrow> map2 (+) (map (\<lambda>_. 0) z) g = (g :: real list)"
  by (induction z g rule: list_induct2) simp_all

lemma zero_plus_rows:
  "map length Z = map length G \<Longrightarrow>
   map2 (map2 (+)) (map (map (\<lambda>_. 0)) Z) G = (G :: real list list)"
proof (induction Z arbitrary: G)
  case Nil
  then show ?case by simp
next
  case (Cons z Z)
  then obtain g G' where G: "G = g # G'" by (cases G) auto
  with Cons.prems have "length z = length g" "map length Z = map length G'" by simp_all
  with Cons.IH [of G'] G show ?case by (simp add: zero_plus_row)
qed

lemma add_to_zeroed_tensor:
  assumes "fits_tensor p old" and "same_shape p g"
  shows "add_grad_tensor (map_option (tmap (\<lambda>_. 0)) old) g = Some g"
proof (cases old)
  case None
  then show ?thesis by simp
next
  case (Some z)
  with assms have "same_shape z g" by (simp add: same_shape_def)
  then have "tmap2 (+) (tmap (\<lambda>_. 0) z) g = g"
    by (simp add: tmap2_def tmap_def same_shape_def zero_plus_rows)
  with Some show ?thesis by simp
qed

lemma add_to_zeroed_vector:
  assumes "fits_vector p old" and "length p = length g"
  shows "add_grad_vector (map_option (map (\<lambda>_. 0)) old) g = Some g"
proof (cases old)
  case None
  then show ?thesis by simp
next
  case (Some z)
  with assms show ?thesis by (simp add: zero_plus_row)
qed

lemma grads_of_fresh:
  "grads_fit ms \<Longrightarrow> gradient_fits g ms \<Longrightarrow>
   grads_of (accumulate g (map zero_grad_module ms)) = map (\<lambda>d. (Some (fst d), Some (snd d))) g"
proof (induction g ms rule: gradient_fits.induct)
  case (1 gs)
  then show ?case by simp
next
  case (2 g gs W b ms)
  then show ?case
    by (simp add: add_to_zeroed_tensor [where p = "data W"]
        add_to_zeroed_vector [where p = "data b"])
qed simp_all

lemma gradient_fits_zero_grad:
  "gradient_fits g (map zero_grad_module ms) = gradient_fits g ms"
  by (induction g ms rule: gradient_fits.induct) simp_all

lemma params_of_zero_grad: "params_of (map zero_grad_module ms) = params_of ms"
  by (induction ms rule: params_of.induct) simp_all

lemma params_of_accumulate: "params_of (accumulate g ms) = params_of ms"
proof (induction ms arbitrary: g)
  case Nil
  then show ?case by simp
next
  case (Cons m ms)
  show ?case by (cases m; cases g) (simp_all add: Cons.IH)
qed

lemma gradient_pass_model:
  assumes "gradient_pass dl s batch = Inr (l, s4)"
  shows "model s4 = accumulate (dl (map zero_grad_module (model s)) (criterion s) (fst batch) (snd batch))
                      (map zero_grad_module (model s))"
  using assms
  by (auto simp: gradient_pass_def Let_def zero_grad_def forward_def compute_loss_def backward_def
      split: sum.splits)

lemma same_rows_update:
  "map length P = map length G \<Longrightarrow> map length (map2 (map2 f) P G) = map length (P :: real list list)"
proof (induction P arbitrary: G)
  case Nil
  then show ?case by simp
next
  case (Cons p P)
  then obtain g G' where G: "G = g # G'" by (cases G) auto
  with Cons.prems have "length p = length g" "map length P = map length G'" by simp_all
  with Cons.IH [of G'] G show ?case by simp
qed

lemma same_shape_tmap2: "same_shape p g \<Longrightarrow> same_shape (tmap2 f p g) g"
  using same_rows_update [of "rws p" "rws g" f] by (simp add: tmap2_def same_shape_def)

lemma grads_fit_fresh:
  "grads_fit ms \<Longrightarrow> gradient_fits g ms \<Longrightarrow> grads_fit (accumulate g (map zero_grad_module ms))"
proof (induction g ms rule: gradient_fits.induct)
  case (1 gs)
  then show ?case by simp
next
  case (2 g gs W b ms)
  then show ?case
    by (simp add: add_to_zeroed_tensor [where p = "data W"]
        add_to_zeroed_vector [where p = "data b"])
qed simp_all

lemma grads_fit_step: "grads_fit ms \<Longrightarrow> grads_fit (map (step_module \<alpha>) ms)"
proof (induction ms rule: grads_fit.induct)
  case 1
  then show ?case by simp
next
  case (2 W b ms)
  then show ?case
    by (auto simp: update_tensor_def update_vector_def same_shape_tmap2 split: option.splits)
qed simp_all

lemma train_step_grads_fit:
  assumes "train_step dl s batch = Inr s'" and "grads_fit (model s)"
    and "\<forall>m c x y. gradient_fits (dl m c x y) m"
  shows "grads_fit (model s')"
proof -
  from assms(1) obtain l s4 where p: "gradient_pass dl s batch = Inr (l, s4)"
    and s': "s' = (step s4)\<lparr>running_loss := running_loss (step s4) + l\<rparr>"
    by (auto simp: train_step_def Let_def split: sum.splits prod.splits)
  let ?g = "dl (map zero_grad_module (model s)) (criterion s) (fst batch) (snd batch)"
  from assms(3) have "gradient_fits ?g (map zero_grad_module (model s))" by blast
  then have "gradient_fits ?g (model s)" by (simp add: gradient_fits_zero_grad)
  with assms(2) have "grads_fit (model s4)"
    by (simp add: gradient_pass_model [OF p] grads_fit_fresh)
  then show ?thesis by (simp add: s' step_def grads_fit_step)
qed

lemma train_batches_grads_fit:
  assumes "\<forall>m c x y. gradient_fits (dl m c x y) m"
  shows "train_batches dl s bs = Inr s' \<Longrightarrow> grads_fit (model s) \<Longrightarrow> grads_fit (model s')"
proof (induction bs arbitrary: s)
  case Nil
  then show ?case by simp
next
  case (Cons b bs)
  then obtain s1 where 1: "train_step dl s b = Inr s1" and 2: "train_batches dl s1 bs = Inr s'"
    by (auto split: sum.splits)
  from train_step_grads_fit [OF 1 Cons.prems(2) assms] have "grads_fit (model s1)" .
  with Cons.IH [OF 2] show ?case .
qed

lemma train_batches_snoc:
  "train_batches dl s (bs @ [b]) =
     (case train_batches dl s bs of Inl e \<Rightarrow> Inl e | Inr s0 \<Rightarrow> train_step dl s0 b)"
  by (induction bs arbitrary: s) (simp_all split: sum.splits)

lemma autograd0_fits: "gradient_fits (autograd0 m c x y) m"
  unfolding autograd0_def
  by (induction m rule: params_of.induct) (simp_all add: same_shape_def)

lemma two_steps_ok: "\<exists>s'. train_batches autograd0 trainer0 ([batch0] @ [batch0]) = Inr s'"
  by (simp add: train_step_def gradient_pass_def Let_def zero_grad_def forward_def
      compute_loss_def backward_def step_def trainer0_def net0_def weight0_def bias0_def batch0_def
      autograd0_def affine_def mm_def add_bias_def dot_def col_def log_softmax_def nll_loss_def
      tmap_def tmap2_def update_tensor_def update_vector_def)

text \<open>
  Without the zeroing a backward pass adds to what is stored, and with it the stored
  gradient is replaced: on the trainer whose weight holds the gradient
  \<open>[[2, 4], [6, 8]]\<close> from before, and whose fresh gradient is \<open>[[1, 0], [0, 1]]\<close>.
\<close>

lemma backward_accumulates_example:
  "grads_of (model (backward autograd0 trainer0 (fst batch0) (snd batch0))) =
   [(Some \<lparr>width = 2, rws = [[3, 4], [6, 9]]\<rparr>, Some [1, 1])]"
  by (simp add: backward_def trainer0_def net0_def weight0_def bias0_def autograd0_def tmap2_def)

lemma zeroed_gradient_example:
  "\<exists>l s4. gradient_pass autograd0 trainer0 batch0 = Inr (l, s4) \<and>
      grads_of (model s4) = [(Some \<lparr>width = 2, rws = [[1, 0], [0, 1]]\<rparr>, Some [0, 0])]"
  by (simp add: gradient_pass_def Let_def zero_grad_def forward_def
      compute_loss_def backward_def trainer0_def net0_def weight0_def bias0_def batch0_def
      autograd0_def affine_def mm_def add_bias_def dot_def col_def log_softmax_def nll_loss_def
      tmap_def tmap2_def)

text \<open>
  C3. At every step of the training loop, the gradients that the update step reads are
  exactly the gradients that the differentiation computed for the current batch and the
  current parameters: nothing from an earlier step is carried over, because the gradients
  are zeroed before the backward pass. Here the differentiation is any function that
  returns gradients of the shapes of the parameters, and the loop starts from any
  gradients of those shapes, stale ones included.
\<close>

theorem update_reads_fresh_gradient:
  assumes "\<forall>m c x y. gradient_fits (dl m c x y) m"
    and "grads_fit (model s)"
    and "train_batches dl s (before @ [batch]) = Inr s'"
  shows "\<exists>s0 loss s4.
           train_batches dl s before = Inr s0 \<and>
           gradient_pass dl s0 batch = Inr (loss, s4) \<and>
           s' = (step s4)\<lparr>running_loss := running_loss (step s4) + loss\<rparr> \<and>
           params_of (model s4) = params_of (model s0) \<and>
           grads_of (model s4) =
             map (\<lambda>d. (Some (fst d), Some (snd d)))
               (dl (map zero_grad_module (model s0)) (criterion s0) (fst batch) (snd batch))"
proof -
  from assms(3) obtain s0 where 0: "train_batches dl s before = Inr s0"
    and 1: "train_step dl s0 batch = Inr s'"
    by (auto simp: train_batches_snoc split: sum.splits)
  from 1 obtain l s4 where p: "gradient_pass dl s0 batch = Inr (l, s4)"
    and s': "s' = (step s4)\<lparr>running_loss := running_loss (step s4) + l\<rparr>"
    by (auto simp: train_step_def Let_def split: sum.splits prod.splits)
  let ?g = "dl (map zero_grad_module (model s0)) (criterion s0) (fst batch) (snd batch)"
  have fit0: "grads_fit (model s0)"
    using train_batches_grads_fit [OF assms(1) 0 assms(2)] .
  from assms(1) have "gradient_fits ?g (map zero_grad_module (model s0))" by blast
  then have gf: "gradient_fits ?g (model s0)" by (simp add: gradient_fits_zero_grad)
  have g: "grads_of (model s4) = map (\<lambda>d. (Some (fst d), Some (snd d))) ?g"
    by (simp add: gradient_pass_model [OF p] grads_of_fresh [OF fit0 gf])
  have q: "params_of (model s4) = params_of (model s0)"
    by (simp add: gradient_pass_model [OF p] params_of_accumulate params_of_zero_grad)
  from 0 p s' q g show ?thesis by blast
qed

theorem update_reads_fresh_gradient_witness:
  "(\<forall>m c x y. gradient_fits (autograd0 m c x y) m) \<and>
   grads_fit (model trainer0) \<and>
   (\<exists>s'. train_batches autograd0 trainer0 ([batch0] @ [batch0]) = Inr s' \<and>
      (\<exists>s0 loss s4.
           train_batches autograd0 trainer0 [batch0] = Inr s0 \<and>
           gradient_pass autograd0 s0 batch0 = Inr (loss, s4) \<and>
           s' = (step s4)\<lparr>running_loss := running_loss (step s4) + loss\<rparr> \<and>
           params_of (model s4) = params_of (model s0) \<and>
           grads_of (model s4) =
             map (\<lambda>d. (Some (fst d), Some (snd d)))
               (autograd0 (map zero_grad_module (model s0)) (criterion s0) (fst batch0) (snd batch0))))"
proof -
  have h1: "\<forall>m c x y. gradient_fits (autograd0 m c x y) m"
    by (simp add: autograd0_fits)
  have h2: "grads_fit (model trainer0)"
    by (simp add: trainer0_def net0_def weight0_def bias0_def same_shape_def)
  obtain s' where h3: "train_batches autograd0 trainer0 ([batch0] @ [batch0]) = Inr s'"
    using two_steps_ok by blast
  from update_reads_fresh_gradient [OF h1 h2 h3] h1 h2 h3 show ?thesis
    by blast
qed

section \<open>The loss\<close>

lemma sum_list_map2_nth:
  "length xs = length ys \<Longrightarrow>
   sum_list (map2 f xs ys) = (\<Sum>i<length ys. (f (xs ! i) (ys ! i) :: real))"
proof -
  assume l: "length xs = length ys"
  have "sum_list (map2 f xs ys) = (\<Sum>i = 0..<length (map2 f xs ys). map2 f xs ys ! i)"
    by (rule sum_list_sum_nth)
  also have "\<dots> = (\<Sum>i = 0..<length ys. f (xs ! i) (ys ! i))"
    using l by (intro sum.cong) simp_all
  finally show ?thesis by (simp add: atLeast0LessThan)
qed

text \<open>
  C5. For a batch of \<open>n\<close> samples (at least one) with class labels in range, the loss is
  the scalar \<open>-(1/n) \<Sum>\<^sub>i p\<^sub>i\<close>, where \<open>p\<^sub>i\<close> is the entry of row \<open>i\<close> of the log-probabilities at
  the true class of sample \<open>i\<close>; the log-probabilities are the output of the network for
  the negative log-likelihood criterion, and the log-softmax of the output for the
  cross-entropy criterion.
\<close>

theorem nll_loss_formula:
  assumes "length labels = length (rws output)"
    and "list_all (\<lambda>y. y < width output) labels"
    and "0 < length labels"
  shows "loss_of NLLLoss output labels =
           Inr (- (1 / real (length labels)) * (\<Sum>i<length labels. rws output ! i ! (labels ! i))) \<and>
         loss_of CrossEntropyLoss output labels =
           Inr (- (1 / real (length labels)) *
                  (\<Sum>i<length labels. rws (log_softmax output) ! i ! (labels ! i)))"
proof -
  have w: "width (log_softmax output) = width output"
    and l: "length (rws (log_softmax output)) = length (rws output)"
    by (simp_all add: log_softmax_def)
  have a: "loss_of NLLLoss output labels =
           Inr (- (1 / real (length labels)) * (\<Sum>i<length labels. rws output ! i ! (labels ! i)))"
    using assms(1,2) by (simp add: nll_loss_def sum_list_map2_nth)
  have b: "loss_of CrossEntropyLoss output labels =
           Inr (- (1 / real (length labels)) *
                  (\<Sum>i<length labels. rws (log_softmax output) ! i ! (labels ! i)))"
    using assms(1,2) by (simp add: nll_loss_def sum_list_map2_nth w l)
  from a b show ?thesis by simp
qed

theorem nll_loss_formula_witness:
  "length [1 :: nat] = length (rws sample) \<and> list_all (\<lambda>y. y < width sample) [1] \<and>
   0 < length [1 :: nat] \<and>
   loss_of NLLLoss sample [1] =
     Inr (- (1 / real (length [1 :: nat])) * (\<Sum>i<length [1 :: nat]. rws sample ! i ! ([1] ! i))) \<and>
   loss_of CrossEntropyLoss sample [1] =
     Inr (- (1 / real (length [1 :: nat])) *
            (\<Sum>i<length [1 :: nat]. rws (log_softmax sample) ! i ! ([1] ! i))) \<and>
   loss_of NLLLoss sample [1] = Inr (- 2)"
proof -
  have h1: "length [1 :: nat] = length (rws sample)" by (simp add: sample_def)
  have h2: "list_all (\<lambda>y. y < width sample) [1]" by (simp add: sample_def)
  have h3: "0 < length [1 :: nat]" by simp
  have v: "loss_of NLLLoss sample [1] = Inr (- 2)"
    by (simp add: nll_loss_def sample_def)
  from nll_loss_formula [OF h1 h2 h3] h1 h2 h3 v show ?thesis by blast
qed

section \<open>The forward pass depends on parameters and input only\<close>

lemma forward_module_forget: "forward_module (forget_grad m) x = forward_module m x"
  by (cases m) simp_all

lemma forward_seq_forget: "forward_seq (map forget_grad ms) x = forward_seq ms x"
  by (induction ms arbitrary: x) (simp_all add: forward_module_forget split: sum.splits)

text \<open>
  C9. The forward pass is a function of the parameter values and the input alone: two
  trainers whose networks have the same modules and the same parameter values return the
  same output for the same batch, whatever gradients, losses and history they hold, and a
  second invocation returns what the first returned. Nothing random enters.
\<close>

theorem forward_deterministic:
  "(map forget_grad (model s) = map forget_grad (model s') \<longrightarrow>
      fst (forward s x) = fst (forward s' x)) \<and>
   fst (forward (snd (forward s x)) x) = fst (forward s x)"
proof -
  have "fst (forward s x) = fst (forward s' x)"
    if "map forget_grad (model s) = map forget_grad (model s')"
  proof -
    have "forward_seq (model s) x = forward_seq (map forget_grad (model s)) x"
      by (simp add: forward_seq_forget)
    also have "\<dots> = forward_seq (model s') x"
      by (simp add: that forward_seq_forget)
    finally show ?thesis by (simp add: forward_def)
  qed
  moreover have "fst (forward (snd (forward s x)) x) = fst (forward s x)"
    by (simp add: forward_def)
  ultimately show ?thesis by blast
qed

theorem forward_deterministic_witness:
  "map forget_grad (model trainer0) = map forget_grad (model (zero_grad trainer0)) \<and>
   model trainer0 \<noteq> model (zero_grad trainer0) \<and>
   fst (forward trainer0 (fst batch0)) = fst (forward (zero_grad trainer0) (fst batch0)) \<and>
   fst (forward (snd (forward trainer0 (fst batch0))) (fst batch0)) = fst (forward trainer0 (fst batch0))"
proof -
  have h: "map forget_grad (model trainer0) = map forget_grad (model (zero_grad trainer0))"
    by (simp add: trainer0_def net0_def zero_grad_def weight0_def bias0_def)
  have d: "model trainer0 \<noteq> model (zero_grad trainer0)"
    by (simp add: trainer0_def net0_def zero_grad_def weight0_def bias0_def tmap_def)
  from forward_deterministic [where s = trainer0 and s' = "zero_grad trainer0" and x = "fst batch0"]
    h d show ?thesis by blast
qed

section \<open>Shape mismatches\<close>

lemma affine_mismatch:
  "width x \<noteq> length (rws w) \<Longrightarrow> affine x w b = Inl SizeMismatch"
  by (simp add: affine_def mm_def)

lemma forward_module_width:
  "module_width m (width x) = Some k \<Longrightarrow> \<exists>y. forward_module m x = Inr y \<and> width y = k"
proof (cases m)
  case (Linear W b)
  assume "module_width m (width x) = Some k"
  with Linear show ?thesis
    by (auto simp: affine_def mm_def add_bias_def tmap_def split: if_splits)
qed (auto simp: relu_def activation_def texp_def tmap_def softmax_width log_softmax_def)

lemma forward_module_mismatch:
  "module_width m (width x) = None \<Longrightarrow> forward_module m x = Inl SizeMismatch"
proof (cases m)
  case (Linear W b)
  assume "module_width m (width x) = None"
  with Linear show ?thesis
    by (auto simp: affine_def mm_def add_bias_def split: if_splits)
qed auto

lemma forward_module_error: "forward_module m x = Inl e \<Longrightarrow> e = SizeMismatch"
  by (cases m) (auto simp: affine_def mm_def add_bias_def split: if_splits sum.splits)

lemma forward_seq_dims:
  "(dims_match ms (width x) \<longrightarrow> (\<exists>y. forward_seq ms x = Inr y)) \<and>
   (\<not> dims_match ms (width x) \<longrightarrow> forward_seq ms x = Inl SizeMismatch)"
proof (induction ms arbitrary: x)
  case Nil
  then show ?case by simp
next
  case (Cons m ms)
  show ?case
  proof (cases "module_width m (width x)")
    case None
    then show ?thesis by (simp add: forward_module_mismatch)
  next
    case (Some k)
    from forward_module_width [OF Some] obtain y
      where y: "forward_module m x = Inr y" "width y = k" by blast
    with Some Cons.IH [of y] show ?thesis by simp
  qed
qed

lemma forward_seq_append:
  "forward_seq (pre @ post) x =
     (case forward_seq pre x of Inl e \<Rightarrow> Inl e | Inr y \<Rightarrow> forward_seq post y)"
  by (induction pre arbitrary: x) (simp_all split: sum.splits)

lemma forward_seq_layer_mismatch:
  assumes "forward_seq pre x = Inr y" and "width y \<noteq> length (rws (data W))"
  shows "forward_seq (pre @ Linear W b # post) x = Inl SizeMismatch"
  using assms by (simp add: forward_seq_append affine_mismatch)

lemma forward_module_zero_grad: "forward_module (zero_grad_module m) x = forward_module m x"
  by (cases m) simp_all

lemma forward_seq_zero_grad: "forward_seq (map zero_grad_module ms) x = forward_seq ms x"
  by (induction ms arbitrary: x) (simp_all add: forward_module_zero_grad split: sum.splits)

lemma train_step_forward_error:
  assumes "forward_seq (model s) images = Inl e"
  shows "train_step dl s (images, labels) = Inl (e, (zero_grad s)\<lparr>trace := trace s @ [ZeroGrad, Forward]\<rparr>)"
  using assms
  by (simp add: train_step_def gradient_pass_def Let_def forward_def zero_grad_def
      forward_seq_zero_grad)

lemma train_step_no_size_error:
  assumes "forward_seq (model s) images = Inr out"
    and "train_step dl s (images, labels) = Inl (e, s')"
  shows "e = BatchMismatch \<or> e = TargetOutOfBounds"
proof -
  have "nll_loss t ys = Inl e' \<Longrightarrow> e' = BatchMismatch \<or> e' = TargetOutOfBounds" for t ys e'
    by (auto simp: nll_loss_def split: if_splits)
  then have "loss_of c t ys = Inl e' \<Longrightarrow> e' = BatchMismatch \<or> e' = TargetOutOfBounds" for c t ys e'
    by (cases c) auto
  with assms show ?thesis
    by (auto simp: train_step_def gradient_pass_def Let_def forward_def zero_grad_def
        compute_loss_def forward_seq_zero_grad split: sum.splits prod.splits)
qed

text \<open>
  C8. When the tensor that reaches an affine layer has a trailing dimension that differs
  from the leading dimension of the layer's weight, the training step ends with a size
  mismatch error in its forward pass: zero-gradients and forward are the only phases
  entered, the parameters are as before, and a training loop whose first batch is such
  an input ends with this error. The same holds whenever the dimensions of the network do
  not match the input. When they match, the forward pass returns an output and the step
  raises no size mismatch.
\<close>

theorem shape_mismatch_is_fatal:
  "(model s = pre @ Linear W b # post \<and> forward_seq pre images = Inr y \<and>
    width y \<noteq> length (rws (data W)) \<longrightarrow>
      (\<exists>s'. train_step dl s (images, labels) = Inl (SizeMismatch, s') \<and>
            trace s' = trace s @ [ZeroGrad, Forward] \<and>
            params_of (model s') = params_of (model s) \<and>
            train_batches dl s ((images, labels) # later) = Inl (SizeMismatch, s'))) \<and>
   (\<not> dims_match (model s) (width images) \<longrightarrow>
      (\<exists>s'. train_step dl s (images, labels) = Inl (SizeMismatch, s') \<and>
            trace s' = trace s @ [ZeroGrad, Forward] \<and>
            params_of (model s') = params_of (model s))) \<and>
   (dims_match (model s) (width images) \<longrightarrow>
      (\<exists>out. forward_seq (model s) images = Inr out) \<and>
      (\<forall>e s'. train_step dl s (images, labels) = Inl (e, s') \<longrightarrow> e \<noteq> SizeMismatch))"
proof -
  let ?s' = "(zero_grad s)\<lparr>trace := trace s @ [ZeroGrad, Forward]\<rparr>"
  have err: "train_step dl s (images, labels) = Inl (SizeMismatch, ?s') \<and>
        trace ?s' = trace s @ [ZeroGrad, Forward] \<and>
        params_of (model ?s') = params_of (model s) \<and>
        train_batches dl s ((images, labels) # later) = Inl (SizeMismatch, ?s')"
    if "forward_seq (model s) images = Inl SizeMismatch"
    using train_step_forward_error [OF that, of dl labels]
    by (simp add: zero_grad_def params_of_zero_grad)
  have a: "model s = pre @ Linear W b # post \<and> forward_seq pre images = Inr y \<and>
    width y \<noteq> length (rws (data W)) \<longrightarrow>
      (\<exists>s'. train_step dl s (images, labels) = Inl (SizeMismatch, s') \<and>
            trace s' = trace s @ [ZeroGrad, Forward] \<and>
            params_of (model s') = params_of (model s) \<and>
            train_batches dl s ((images, labels) # later) = Inl (SizeMismatch, s'))"
  proof
    assume h: "model s = pre @ Linear W b # post \<and> forward_seq pre images = Inr y \<and>
      width y \<noteq> length (rws (data W))"
    then have "forward_seq (model s) images = Inl SizeMismatch"
      by (simp add: forward_seq_layer_mismatch)
    from err [OF this] show "\<exists>s'. train_step dl s (images, labels) = Inl (SizeMismatch, s') \<and>
            trace s' = trace s @ [ZeroGrad, Forward] \<and>
            params_of (model s') = params_of (model s) \<and>
            train_batches dl s ((images, labels) # later) = Inl (SizeMismatch, s')"
      by blast
  qed
  have b: "\<not> dims_match (model s) (width images) \<longrightarrow>
      (\<exists>s'. train_step dl s (images, labels) = Inl (SizeMismatch, s') \<and>
            trace s' = trace s @ [ZeroGrad, Forward] \<and>
            params_of (model s') = params_of (model s))"
  proof
    assume "\<not> dims_match (model s) (width images)"
    with forward_seq_dims [of "model s" images]
    have "forward_seq (model s) images = Inl SizeMismatch" by blast
    from err [OF this] show "\<exists>s'. train_step dl s (images, labels) = Inl (SizeMismatch, s') \<and>
            trace s' = trace s @ [ZeroGrad, Forward] \<and>
            params_of (model s') = params_of (model s)"
      by blast
  qed
  have c: "dims_match (model s) (width images) \<longrightarrow>
      (\<exists>out. forward_seq (model s) images = Inr out) \<and>
      (\<forall>e s'. train_step dl s (images, labels) = Inl (e, s') \<longrightarrow> e \<noteq> SizeMismatch)"
  proof
    assume "dims_match (model s) (width images)"
    with forward_seq_dims [of "model s" images]
    obtain out where out: "forward_seq (model s) images = Inr out" by blast
    have "e \<noteq> SizeMismatch" if "train_step dl s (images, labels) = Inl (e, s')" for e s'
      using train_step_no_size_error [OF out that] by auto
    with out show "(\<exists>out. forward_seq (model s) images = Inr out) \<and>
      (\<forall>e s'. train_step dl s (images, labels) = Inl (e, s') \<longrightarrow> e \<noteq> SizeMismatch)"
      by blast
  qed
  from a b c show ?thesis by blast
qed

theorem shape_mismatch_is_fatal_witness:
  "(model trainer0 = [] @ Linear weight0 bias0 # [LogSoftmax] \<and>
    forward_seq [] (fst batch_wide) = Inr (fst batch_wide) \<and>
    width (fst batch_wide) \<noteq> length (rws (data weight0))) \<and>
   (\<exists>s'. train_step autograd0 trainer0 (fst batch_wide, snd batch_wide) = Inl (SizeMismatch, s') \<and>
         trace s' = trace trainer0 @ [ZeroGrad, Forward] \<and>
         params_of (model s') = params_of (model trainer0) \<and>
         train_batches autograd0 trainer0 ((fst batch_wide, snd batch_wide) # [batch0]) =
           Inl (SizeMismatch, s')) \<and>
   \<not> dims_match (model trainer0) (width (fst batch_wide)) \<and>
   dims_match (model trainer0) (width (fst batch0)) \<and>
   (\<exists>out. forward_seq (model trainer0) (fst batch0) = Inr out)"
proof -
  have h1: "model trainer0 = [] @ Linear weight0 bias0 # [LogSoftmax] \<and>
    forward_seq [] (fst batch_wide) = Inr (fst batch_wide) \<and>
    width (fst batch_wide) \<noteq> length (rws (data weight0))"
    by (simp add: trainer0_def net0_def batch_wide_def weight0_def)
  have h2: "\<not> dims_match (model trainer0) (width (fst batch_wide))"
    by (simp add: trainer0_def net0_def batch_wide_def weight0_def)
  have h3: "dims_match (model trainer0) (width (fst batch0))"
    by (simp add: trainer0_def net0_def batch0_def weight0_def bias0_def)
  from shape_mismatch_is_fatal
    [where s = trainer0 and pre = "[]" and W = weight0 and b = bias0 and post = "[LogSoftmax]"
       and images = "fst batch_wide" and y = "fst batch_wide" and labels = "snd batch_wide"
       and dl = autograd0 and later = "[batch0]"] h1
  have a: "\<exists>s'. train_step autograd0 trainer0 (fst batch_wide, snd batch_wide) = Inl (SizeMismatch, s') \<and>
         trace s' = trace trainer0 @ [ZeroGrad, Forward] \<and>
         params_of (model s') = params_of (model trainer0) \<and>
         train_batches autograd0 trainer0 ((fst batch_wide, snd batch_wide) # [batch0]) =
           Inl (SizeMismatch, s')"
    by blast
  from shape_mismatch_is_fatal
    [where s = trainer0 and images = "fst batch0" and labels = "snd batch0" and dl = autograd0] h3
  have b: "\<exists>out. forward_seq (model trainer0) (fst batch0) = Inr out"
    by blast
  from h1 a h2 h3 b show ?thesis by blast
qed

section \<open>What the loss receives\<close>

lemma affine_well_shaped: "affine x w b = Inr y \<Longrightarrow> well_shaped y"
  by (auto simp: affine_def mm_def add_bias_def well_shaped_def tmap_def list_all_iff
      split: if_splits)

lemma log_softmax_log_probabilities:
  assumes "well_shaped x" and "0 < width x"
  shows "log_probabilities (log_softmax x)"
proof -
  have "list_all (\<lambda>r. r \<noteq> []) (rws x)"
    using assms by (rule rows_nonempty)
  then show ?thesis
    by (simp add: log_probabilities_def log_softmax_rws list_all_iff log_softmax_row_sum
        del: map_map)
qed

lemma model_logsoftmax_append:
  "model_logsoftmax w1 b1 w2 b2 w3 b3 = model_logits w1 b1 w2 b2 w3 b3 @ [LogSoftmax]"
  by (simp add: model_logsoftmax_def model_logits_def)

lemma model_logits_well_shaped:
  "forward_seq (model_logits w1 b1 w2 b2 w3 b3) x = Inr y \<Longrightarrow> well_shaped y"
  by (auto simp: model_logits_def fresh_def split: sum.splits dest: affine_well_shaped)

lemma zeros_rws: "rws (zeros n k) = replicate n (replicate k 0)"
  and zeros_width: "width (zeros n k) = k"
  by (simp_all add: zeros_def)

text \<open>
  The network of Part 3 that is trained with the cross-entropy criterion ends in an affine
  layer. With all parameters zero and a zero image it hands the loss the scores
  \<open>0, \<dots>, 0\<close> for the ten classes, whose exponentials sum to 10: the tensor handed to
  the loss is not a tensor of log-probabilities. The criterion computes the loss \<open>ln 10\<close>
  from it.
\<close>

theorem logits_config_counterexample:
  "forward_seq
     (model_logits (zeros 784 128) (replicate 128 0) (zeros 128 64) (replicate 64 0)
        (zeros 64 10) (replicate 10 0))
     (zeros 1 784) = Inr (zeros 1 10) \<and>
   \<not> log_probabilities (zeros 1 10) \<and>
   loss_of CrossEntropyLoss (zeros 1 10) [3] = Inr (ln 10)"
proof -
  have a: "forward_seq
     (model_logits (zeros 784 128) (replicate 128 0) (zeros 128 64) (replicate 64 0)
        (zeros 64 10) (replicate 10 0))
     (zeros 1 784) = Inr (zeros 1 10)"
    by (simp add: model_logits_def fresh_def affine_zeros relu_zeros zeros_rws zeros_width)
  have b: "\<not> log_probabilities (zeros 1 10)"
    by (simp add: log_probabilities_def zeros_rws sum_list_replicate)
  have c: "loss_of CrossEntropyLoss (zeros 1 10) [3] = Inr (ln 10)"
    by (simp add: log_softmax_zeros nll_loss_def const_tensor_def)
  from a b c show ?thesis by simp
qed

text \<open>
  C2 (amended). The network of Part 3 that ends in \<^verbatim>\<open>nn.LogSoftmax(dim=1)\<close> hands the
  negative log-likelihood criterion the log-softmax of the scores of its last affine
  layer, a tensor of row-wise log-probabilities. The network that is trained with the
  cross-entropy criterion hands it the raw scores, and the criterion applies the
  log-softmax itself: both configurations compute the same loss, the negative
  log-likelihood of log-probabilities. In neither is the final layer a softmax.
\<close>

theorem loss_on_log_softmax:
  "forward_seq (model_logsoftmax w1 b1 w2 b2 w3 b3) x =
     (case forward_seq (model_logits w1 b1 w2 b2 w3 b3) x of
        Inl e \<Rightarrow> Inl e | Inr scores \<Rightarrow> Inr (log_softmax scores)) \<and>
   (case forward_seq (model_logsoftmax w1 b1 w2 b2 w3 b3) x of
      Inl e \<Rightarrow> Inl e | Inr out \<Rightarrow> loss_of NLLLoss out labels) =
   (case forward_seq (model_logits w1 b1 w2 b2 w3 b3) x of
      Inl e \<Rightarrow> Inl e | Inr scores \<Rightarrow> loss_of CrossEntropyLoss scores labels) \<and>
   (forward_seq (model_logsoftmax w1 b1 w2 b2 w3 b3) x = Inr out \<and> 0 < width out \<longrightarrow>
      log_probabilities out) \<and>
   last (model_logits w1 b1 w2 b2 w3 b3) \<noteq> Softmax \<and>
   last (model_logsoftmax w1 b1 w2 b2 w3 b3) \<noteq> Softmax"
proof -
  let ?logits = "model_logits w1 b1 w2 b2 w3 b3"
  let ?logsm = "model_logsoftmax w1 b1 w2 b2 w3 b3"
  have a: "forward_seq ?logsm x =
     (case forward_seq ?logits x of Inl e \<Rightarrow> Inl e | Inr scores \<Rightarrow> Inr (log_softmax scores))"
    by (simp add: model_logsoftmax_append forward_seq_append split: sum.splits)
  have b: "(case forward_seq ?logsm x of
      Inl e \<Rightarrow> Inl e | Inr out \<Rightarrow> loss_of NLLLoss out labels) =
   (case forward_seq ?logits x of
      Inl e \<Rightarrow> Inl e | Inr scores \<Rightarrow> loss_of CrossEntropyLoss scores labels)"
    by (simp add: a split: sum.splits)
  have c: "log_probabilities out"
    if h: "forward_seq ?logsm x = Inr out \<and> 0 < width out"
  proof -
    from h a obtain scores where s: "forward_seq ?logits x = Inr scores"
      and o: "out = log_softmax scores"
      by (auto split: sum.splits)
    from s have "well_shaped scores" by (rule model_logits_well_shaped)
    moreover from h o have "0 < width scores" by (simp add: log_softmax_def)
    ultimately show ?thesis unfolding o by (rule log_softmax_log_probabilities)
  qed
  have d: "last ?logits \<noteq> Softmax \<and> last ?logsm \<noteq> Softmax"
    by (simp add: model_logits_def model_logsoftmax_def)
  from a b c d show ?thesis by blast
qed

theorem loss_on_log_softmax_witness:
  "forward_seq
     (model_logsoftmax (zeros 2 2) (replicate 2 0) (zeros 2 2) (replicate 2 0)
        (zeros 2 2) (replicate 2 0)) sample = Inr (const_tensor 1 2 (- ln 2)) \<and>
   0 < width (const_tensor 1 2 (- ln 2)) \<and>
   log_probabilities (const_tensor 1 2 (- ln 2))"
proof -
  have h: "forward_seq
     (model_logsoftmax (zeros 2 2) (replicate 2 0) (zeros 2 2) (replicate 2 0)
        (zeros 2 2) (replicate 2 0)) sample = Inr (const_tensor 1 2 (- ln 2))"
    by (simp add: model_logsoftmax_def fresh_def affine_zeros relu_zeros zeros_rws zeros_width
        log_softmax_zeros sample_def)
  have w: "0 < width (const_tensor 1 2 (- ln 2))"
    by (simp add: const_tensor_def)
  from loss_on_log_softmax
    [of "zeros 2 2" "replicate 2 0" "zeros 2 2" "replicate 2 0" "zeros 2 2" "replicate 2 0"
       sample _ "const_tensor 1 2 (- ln 2)"] h w
  show ?thesis by blast
qed

text \<open>
  The class \<^verbatim>\<open>Network\<close> of Part 2 ends in a softmax: every row of its output sums to 1.
  Part 2 computes no loss.
\<close>

lemma network_forward_rows_sum_to_one:
  assumes "network_forward w_hidden b_hidden w_output b_output x = Inr p" and "0 < width p"
  shows "list_all (\<lambda>r. sum_list r = 1) (rws p)"
proof -
  from assms(1) obtain x2 x3 where 3: "affine x2 w_output b_output = Inr x3"
    and p: "p = softmax x3"
    by (auto simp: network_forward_def Let_def split: sum.splits)
  from 3 have "well_shaped x3" by (rule affine_well_shaped)
  moreover from assms(2) p have "0 < width x3" by (simp add: softmax_width)
  ultimately have "list_all (\<lambda>r. r \<noteq> []) (rws x3)" by (rule rows_nonempty)
  then show ?thesis
    unfolding p by (simp add: softmax_rws list_all_iff softmax_row_sum)
qed

end
